theory Spec2Isabelle
  imports Complex_Main "HOL-Library.Word"
begin

unbundle bit_operations_syntax

section \<open>The framebuffer module \<open>cog1/framebuffer.js\<close>\<close>

text \<open>
  The module keeps its state in module-level variables; the model threads them through
  every operation as one record. Conventions of the embedding:
  \<^item> coordinates, sizes and indices are JavaScript numbers holding integers: \<open>int\<close>;
  \<^item> the bytes of the \<open>Uint8ClampedArray\<close> are \<open>8 word\<close>, the cells of the
    \<open>Uint32Array\<close> are \<open>32 word\<close>, and the byte view of the latter is little-endian
    (the layout the source's \<open>(a << 24) | (b << 16) | (g << 8) | r\<close> is written for);
  \<^item> a depth is a JavaScript number (\<open>jsnum\<close>): a finite double as the rational it
    denotes, an infinity or NaN. Arithmetic rounds the exact result to the nearest
    double, ties to even; a store into a \<open>Float32Array\<close> rounds to the nearest
    binary32 value (\<open>fround\<close>). The two zeros are one value: the module never looks at
    the sign of a zero and never divides by zero;
  \<^item> a typed array is a list of fixed length: a read out of range yields \<open>undefined\<close>
    (\<open>None\<close>), a store out of range does nothing;
  \<^item> an exception is a value \<open>Inl e\<close> of the result.
  The fields \<open>width\<close> and \<open>height\<close> of the source's \<open>dirtyRect\<close> object are written
  and read by \<open>display\<close> only and are left out, as is the drawing context itself: of the
  canvas the model keeps the size and the pixel array that \<open>getImageData\<close> hands out.
\<close>

datatype js_error = RangeError | TypeError

record dirty_rect =
  dr_x :: int
  dr_y :: int
  dr_xMax :: int
  dr_yMax :: int

record clear_rect =
  cr_x :: int
  cr_y :: int
  cr_w :: int
  cr_h :: int

record surface =
  s_width :: int
  s_height :: int
  s_data :: "8 word list"

record color =
  rgbaShaded :: "int list option"

subsection \<open>JavaScript numbers\<close>

datatype jsnum = Num rat | PosInf | NegInf | NaN

definition pow2 :: "int \<Rightarrow> rat" where
  "pow2 k = (if 0 \<le> k then 2 ^ nat k else 1 / 2 ^ nat (- k))"

text \<open>The number of binary digits of a positive integer.\<close>

function bit_length :: "int \<Rightarrow> int" where
  "bit_length n = (if n \<le> 0 then 0 else 1 + bit_length (n div 2))"
  by pat_completeness auto
termination
  by (relation "measure nat") auto

declare bit_length.simps [simp del]

text \<open>For a positive rational \<open>q\<close>, the exponent \<open>e\<close> with \<open>2^e \<le> q < 2^(e+1)\<close>.\<close>

definition floor_log2 :: "rat \<Rightarrow> int" where
  "floor_log2 q =
     (let e = bit_length (fst (quotient_of q)) - bit_length (snd (quotient_of q))
      in if pow2 e \<le> q then e else e - 1)"

definition round_half_even :: "rat \<Rightarrow> int" where
  "round_half_even q =
     (let f = \<lfloor>q\<rfloor>; d = q - of_int f
      in if d < 1 / 2 then f else if 1 / 2 < d then f + 1 else if even f then f else f + 1)"

text \<open>
  IEEE 754 rounding to nearest, ties to even, into the binary format of precision \<open>p\<close>
  with normal exponents \<open>emin .. emax\<close>: the value is rounded to a multiple of the
  spacing of the format at its magnitude (that of the subnormal numbers below
  \<open>2^emin\<close>), and a rounded value of magnitude \<open>2^(emax+1)\<close> or more is an infinity.
\<close>

definition round_binary :: "int \<Rightarrow> int \<Rightarrow> int \<Rightarrow> rat \<Rightarrow> jsnum" where
  "round_binary p emin emax q =
     (if q = 0 then Num 0
      else
        let k = max (floor_log2 \<bar>q\<bar>) emin - (p - 1);
            r = of_int (round_half_even (q / pow2 k)) * pow2 k
        in if r = 0 then Num 0
           else if floor_log2 \<bar>r\<bar> \<le> emax then Num r
           else if 0 < r then PosInf else NegInf)"

definition to_double :: "rat \<Rightarrow> jsnum" where
  "to_double q = round_binary 53 (- 1022) 1023 q"

text \<open>What a \<open>Float32Array\<close> keeps of a number stored into it (\<open>Math.fround\<close>).\<close>

fun fround :: "jsnum \<Rightarrow> jsnum" where
  "fround (Num q) = round_binary 24 (- 126) 127 q"
| "fround v = v"

fun js_neg :: "jsnum \<Rightarrow> jsnum" where
  "js_neg (Num a) = Num (- a)"
| "js_neg PosInf = NegInf"
| "js_neg NegInf = PosInf"
| "js_neg NaN = NaN"

fun js_abs :: "jsnum \<Rightarrow> jsnum" where
  "js_abs (Num a) = Num \<bar>a\<bar>"
| "js_abs PosInf = PosInf"
| "js_abs NegInf = PosInf"
| "js_abs NaN = NaN"

fun js_add :: "jsnum \<Rightarrow> jsnum \<Rightarrow> jsnum" where
  "js_add (Num a) (Num b) = to_double (a + b)"
| "js_add NaN v = NaN"
| "js_add v NaN = NaN"
| "js_add PosInf NegInf = NaN"
| "js_add NegInf PosInf = NaN"
| "js_add PosInf v = PosInf"
| "js_add NegInf v = NegInf"
| "js_add v PosInf = PosInf"
| "js_add v NegInf = NegInf"

fun js_sub :: "jsnum \<Rightarrow> jsnum \<Rightarrow> jsnum" where
  "js_sub (Num a) (Num b) = to_double (a - b)"
| "js_sub NaN v = NaN"
| "js_sub v NaN = NaN"
| "js_sub PosInf PosInf = NaN"
| "js_sub NegInf NegInf = NaN"
| "js_sub PosInf v = PosInf"
| "js_sub NegInf v = NegInf"
| "js_sub v PosInf = NegInf"
| "js_sub v NegInf = PosInf"

text \<open>Division; a zero divisor is taken as the positive zero.\<close>

fun js_div :: "jsnum \<Rightarrow> jsnum \<Rightarrow> jsnum" where
  "js_div (Num a) (Num b) =
     (if b = 0 then (if a = 0 then NaN else if 0 < a then PosInf else NegInf)
      else to_double (a / b))"
| "js_div NaN v = NaN"
| "js_div v NaN = NaN"
| "js_div (Num a) v = Num 0"
| "js_div PosInf (Num b) = (if 0 \<le> b then PosInf else NegInf)"
| "js_div NegInf (Num b) = (if 0 \<le> b then NegInf else PosInf)"
| "js_div v w = NaN"

text \<open>The comparison \<open>a < b\<close>: false when either side is NaN.\<close>

fun js_less :: "jsnum \<Rightarrow> jsnum \<Rightarrow> bool" where
  "js_less (Num a) (Num b) = (a < b)"
| "js_less NaN v = False"
| "js_less v NaN = False"
| "js_less v NegInf = False"
| "js_less PosInf v = False"
| "js_less NegInf v = True"
| "js_less v PosInf = True"

record fb_state =
  width :: int
  height :: int
  bufSize :: int
  zBufSize :: int
  framebuffer :: "8 word list"
  zBuf :: "jsnum list"
  resetBuffer32 :: "32 word list"
  resetZBuffer :: "jsnum list"
  bgColor :: "int list"
  dirtyRect :: dirty_rect

definition maxDistance :: jsnum where
  "maxDistance = Num (- 10000)"

text \<open>The module-level constant \<open>bgColor\<close> before the first \<open>init\<close>.\<close>

definition bgColor_initial :: "int list" where
  "bgColor_initial = [255, 255, 255, 255]"

subsection \<open>Typed arrays\<close>

definition typed_get :: "'a list \<Rightarrow> int \<Rightarrow> 'a option" where
  "typed_get xs i = (if 0 \<le> i \<and> i < int (length xs) then Some (xs ! nat i) else None)"

definition typed_put :: "'a list \<Rightarrow> int \<Rightarrow> 'a \<Rightarrow> 'a list" where
  "typed_put xs i v = (if 0 \<le> i \<and> i < int (length xs) then xs[nat i := v] else xs)"

text \<open>
  \<open>new T(buf.buffer, byteOffset, len)\<close> followed by \<open>.set(new T(src.buffer, 0, len))\<close>,
  for an element type of \<open>bpe\<close> bytes and buffers given as lists of such elements.
  Either constructor throws a RangeError when the view does not fit its buffer
  or the offset is negative or not aligned.
\<close>

definition view_set :: "int \<Rightarrow> 'a list \<Rightarrow> int \<Rightarrow> int \<Rightarrow> 'a list \<Rightarrow> js_error + 'a list" where
  "view_set bpe buf byteOffset len src =
     (if byteOffset < 0 \<or> len < 0 \<or> 0 < byteOffset mod bpe
         \<or> bpe * int (length buf) < byteOffset + len * bpe
         \<or> bpe * int (length src) < len * bpe
      then Inl RangeError
      else Inr (take (nat (byteOffset div bpe)) buf @ take (nat len) src
                @ drop (nat (byteOffset div bpe) + nat len) buf))"

definition word_bytes :: "32 word \<Rightarrow> 8 word list" where
  "word_bytes w = [ucast w, ucast (drop_bit 8 w), ucast (drop_bit 16 w), ucast (drop_bit 24 w)]"

definition bytes_of :: "32 word list \<Rightarrow> 8 word list" where
  "bytes_of ws = concat (map word_bytes ws)"

text \<open>A store into a \<open>Uint8ClampedArray\<close>: clamped to 0..255; \<open>undefined\<close> becomes 0.\<close>

definition clamp8 :: "int list \<Rightarrow> nat \<Rightarrow> 8 word" where
  "clamp8 rgba k = (if k < length rgba then word_of_int (max 0 (min 255 (rgba ! k))) else 0)"

subsection \<open>Dirty rectangle\<close>

definition resetDirtyRect :: "fb_state \<Rightarrow> fb_state" where
  "resetDirtyRect s =
     s\<lparr>dirtyRect := \<lparr>dr_x = width s - 1, dr_y = height s - 1, dr_xMax = 0, dr_yMax = 0\<rparr>\<rparr>"

definition setMaxDirtyRect :: "fb_state \<Rightarrow> fb_state" where
  "setMaxDirtyRect s =
     s\<lparr>dirtyRect := \<lparr>dr_x = 0, dr_y = 0, dr_xMax = width s - 1, dr_yMax = height s - 1\<rparr>\<rparr>"

definition adjustDirtyRectangle :: "fb_state \<Rightarrow> int \<Rightarrow> int \<Rightarrow> fb_state" where
  "adjustDirtyRectangle s px py =
     (let d = dirtyRect s;
          d1 = (if px < dr_x d then d\<lparr>dr_x := px\<rparr>
                else if px > dr_xMax d then d\<lparr>dr_xMax := px\<rparr>
                else d);
          d2 = (if py < dr_y d1 then d1\<lparr>dr_y := py\<rparr>
                else if py > dr_yMax d1 then d1\<lparr>dr_yMax := py\<rparr>
                else d1)
      in s\<lparr>dirtyRect := d2\<rparr>)"

text \<open>A sequence of \<open>adjustDirtyRectangle\<close> calls with no \<open>reset\<close> in between.\<close>

fun adjust_all :: "fb_state \<Rightarrow> (int \<times> int) list \<Rightarrow> fb_state" where
  "adjust_all s [] = s"
| "adjust_all s (p # ps) = adjust_all (adjustDirtyRectangle s (fst p) (snd p)) ps"

subsection \<open>Depth test and pixel write\<close>

text \<open>
  The unused parameter \<open>color\<close> of the source is left out. A store into \<open>zBuf\<close> keeps
  \<open>fround z\<close>; the sum \<open>z + 10\<close> is a double.
\<close>

definition zBufferTest :: "fb_state \<Rightarrow> int \<Rightarrow> int \<Rightarrow> jsnum \<Rightarrow> bool \<times> fb_state" where
  "zBufferTest s px py z =
     (let indexZBuf = py * width s + px in
      case typed_get (zBuf s) indexZBuf of
        None \<Rightarrow> (True, s\<lparr>zBuf := typed_put (zBuf s) indexZBuf (fround z)\<rparr>)
      | Some stored \<Rightarrow>
          if js_less stored (js_add z (Num 10))
          then (True, s\<lparr>zBuf := typed_put (zBuf s) indexZBuf (fround z)\<rparr>)
          else (False, s))"

text \<open>
  \<open>set\<close> of the source. The two optional flags are \<open>None\<close> when not given. A colour
  object without \<open>rgbaShaded\<close> makes \<open>rgba[0]\<close> throw a TypeError.
\<close>

definition fb_set :: "fb_state \<Rightarrow> int \<Rightarrow> int \<Rightarrow> jsnum \<Rightarrow> color \<Rightarrow> bool option \<Rightarrow> bool option
    \<Rightarrow> js_error + fb_state" where
  "fb_set s px py z c doZBufferTest adjustDirtyRect =
     (if px < 0 \<or> py < 0 \<or> px \<ge> width s \<or> py \<ge> height s then Inr s
      else
        let (pass, s1) =
              (if doZBufferTest = None \<or> doZBufferTest = Some True
               then zBufferTest s px py z else (True, s))
        in if pass = False then Inr s1
           else
             let s2 = (if adjustDirtyRect = None \<or> adjustDirtyRect = Some True
                       then adjustDirtyRectangle s1 px py else s1)
             in case rgbaShaded c of
                  None \<Rightarrow> Inl TypeError
                | Some rgba \<Rightarrow>
                    let index = (py * width s + px) * 4;
                        f0 = typed_put (framebuffer s2) index (clamp8 rgba 0);
                        f1 = typed_put f0 (index + 1) (clamp8 rgba 1);
                        f2 = typed_put f1 (index + 2) (clamp8 rgba 2);
                        f3 = typed_put f2 (index + 3) (clamp8 rgba 3)
                    in Inr (s2\<lparr>framebuffer := f3\<rparr>))"

subsection \<open>Reset\<close>

text \<open>The result \<open>None\<close> stands for the \<open>undefined\<close> that the source returns.\<close>

definition reset :: "fb_state \<Rightarrow> js_error + (clear_rect option \<times> fb_state)" where
  "reset s =
     (let d = dirtyRect s;
          dirtyStartIndex = dr_y d * width s + dr_x d;
          dirtyEndIndex = dr_yMax d * width s + dr_xMax d
      in if dirtyEndIndex > dirtyStartIndex then
           (let dirtyWidth = dirtyEndIndex - dirtyStartIndex;
                dirtyStartByte = dirtyStartIndex * 4;
                dirtyEndByte = dirtyEndIndex * 4;
                dirtyBytes = dirtyEndByte - dirtyStartByte
            in case view_set 4 (zBuf s) dirtyStartByte dirtyWidth (resetZBuffer s) of
                 Inl e \<Rightarrow> Inl e
               | Inr zb \<Rightarrow>
                   (case view_set 1 (framebuffer s) dirtyStartByte dirtyBytes
                           (bytes_of (resetBuffer32 s)) of
                      Inl e \<Rightarrow> Inl e
                    | Inr fb \<Rightarrow>
                        Inr (Some \<lparr>cr_x = dr_x d, cr_y = dr_y d,
                                   cr_w = dr_xMax d - dr_x d + 1,
                                   cr_h = dr_yMax d - dr_y d + 1\<rparr>,
                             resetDirtyRect (s\<lparr>zBuf := zb, framebuffer := fb\<rparr>))))
         else Inr (None, resetDirtyRect s))"

subsection \<open>Initialisation\<close>

text \<open>\<open>bgColor[i] = v\<close> on the JavaScript array, for an index of at most its length.\<close>

definition array_put :: "int list \<Rightarrow> nat \<Rightarrow> int \<Rightarrow> int list" where
  "array_put xs i v = (if i < length xs then xs[i := v] else xs @ [v])"

fun copy_bgColor :: "int list \<Rightarrow> int list \<Rightarrow> nat \<Rightarrow> int list" where
  "copy_bgColor bg [] i = bg"
| "copy_bgColor bg (v # vs) i = copy_bgColor (array_put bg i v) vs (Suc i)"

definition initResetBuffer :: "fb_state \<Rightarrow> fb_state" where
  "initResetBuffer s =
     (let r = bgColor s ! 0; g = bgColor s ! 1; b = bgColor s ! 2; a = bgColor s ! 3;
          bgcolor = (push_bit 24 (word_of_int a) OR push_bit 16 (word_of_int b)
                     OR push_bit 8 (word_of_int g) OR word_of_int r) :: 32 word
      in s\<lparr>resetBuffer32 := replicate (nat (bufSize s div 4)) bgcolor,
            resetZBuffer := replicate (nat (zBufSize s)) (fround maxDistance)\<rparr>)"

text \<open>
  \<open>init\<close> up to its last statement: \<open>bg0\<close> is the content of the module-level \<open>bgColor\<close>
  array when \<open>init\<close> is called (it has four entries at least). A negative size makes the
  allocation of the \<open>Float32Array\<close> throw.
\<close>

definition init_prepare :: "int list \<Rightarrow> surface \<Rightarrow> int list option \<Rightarrow> js_error + fb_state" where
  "init_prepare bg0 ctx bgc =
     (let w = s_width ctx; h = s_height ctx;
          bg = (case bgc of None \<Rightarrow> bg0
                | Some cs \<Rightarrow> array_put (copy_bgColor bg0 cs 0) 3 255)
      in if w * h < 0 then Inl RangeError
         else Inr (setMaxDirtyRect (initResetBuffer
                \<lparr>width = w, height = h, bufSize = w * h * 4, zBufSize = w * h,
                 framebuffer = s_data ctx, zBuf = replicate (nat (w * h)) (Num 0),
                 resetBuffer32 = [], resetZBuffer = [], bgColor = bg,
                 dirtyRect = \<lparr>dr_x = 0, dr_y = 0, dr_xMax = 0, dr_yMax = 0\<rparr>\<rparr>)))"

definition init :: "int list \<Rightarrow> surface \<Rightarrow> int list option \<Rightarrow> js_error + fb_state" where
  "init bg0 ctx bgc =
     (case init_prepare bg0 ctx bgc of
        Inl e \<Rightarrow> Inl e
      | Inr s \<Rightarrow> (case reset s of Inl e \<Rightarrow> Inl e | Inr (r, s') \<Rightarrow> Inr s'))"

subsection \<open>Depth visualisation\<close>

text \<open>The first loop of \<open>scaleZBuffer\<close>: the pair is \<open>(min, max)\<close>.\<close>

fun scan_min_max :: "jsnum list \<Rightarrow> jsnum \<times> jsnum \<Rightarrow> jsnum \<times> jsnum" where
  "scan_min_max [] mm = mm"
| "scan_min_max (v # vs) mm =
     (if v = maxDistance then scan_min_max vs mm
      else if js_less (snd mm) v then scan_min_max vs (fst mm, v)
      else if js_less v (fst mm) then scan_min_max vs (v, snd mm)
      else scan_min_max vs mm)"

definition scale_min_max :: "fb_state \<Rightarrow> jsnum \<times> jsnum" where
  "scale_min_max s =
     scan_min_max (take (nat (zBufSize s)) (zBuf s)) (js_neg maxDistance, maxDistance)"

definition scale_range :: "fb_state \<Rightarrow> jsnum" where
  "scale_range s =
     (let range = js_abs (js_sub (snd (scale_min_max s)) (fst (scale_min_max s)))
      in if range = Num 0 then Num 1 else range)"

definition scaleZBuffer :: "fb_state \<Rightarrow> fb_state" where
  "scaleZBuffer s =
     (let mn = fst (scale_min_max s); range = scale_range s; n = nat (zBufSize s)
      in s\<lparr>zBuf := map (\<lambda>v. if v = maxDistance then v
                             else fround (js_div (js_sub v mn) range)) (take n (zBuf s))
                    @ drop n (zBuf s)\<rparr>)"

subsection \<open>Invariants of the data model\<close>

text \<open>
  The buffers are sized to the canvas, and the dirty rectangle holds pixel coordinates
  of the canvas (its empty state and its full state included).
\<close>

definition canvas_inv :: "fb_state \<Rightarrow> bool" where
  "canvas_inv s \<longleftrightarrow>
     1 \<le> width s \<and> 1 \<le> height s
     \<and> int (length (zBuf s)) = width s * height s
     \<and> int (length (framebuffer s)) = 4 * (width s * height s)
     \<and> int (length (resetZBuffer s)) = width s * height s
     \<and> int (length (resetBuffer32 s)) = width s * height s"

definition rect_inv :: "fb_state \<Rightarrow> bool" where
  "rect_inv s \<longleftrightarrow>
     0 \<le> dr_x (dirtyRect s) \<and> dr_x (dirtyRect s) < width s
     \<and> 0 \<le> dr_y (dirtyRect s) \<and> dr_y (dirtyRect s) < height s
     \<and> 0 \<le> dr_xMax (dirtyRect s) \<and> dr_xMax (dirtyRect s) < width s
     \<and> 0 \<le> dr_yMax (dirtyRect s) \<and> dr_yMax (dirtyRect s) < height s"

subsection \<open>Observations and concrete runs\<close>

text \<open>The four channels of the pixel at \<open>(px, py)\<close> and the depth stored there.\<close>

definition pixel_at :: "fb_state \<Rightarrow> int \<Rightarrow> int \<Rightarrow> 8 word option list" where
  "pixel_at s px py =
     (let index = (py * width s + px) * 4
      in [typed_get (framebuffer s) index, typed_get (framebuffer s) (index + 1),
          typed_get (framebuffer s) (index + 2), typed_get (framebuffer s) (index + 3)])"

definition depth_at :: "fb_state \<Rightarrow> int \<Rightarrow> int \<Rightarrow> jsnum option" where
  "depth_at s px py = typed_get (zBuf s) (py * width s + px)"

text \<open>A canvas that has not been drawn on: every byte of its pixel array is 0.\<close>

definition blank_canvas :: "int \<Rightarrow> int \<Rightarrow> surface" where
  "blank_canvas w h = \<lparr>s_width = w, s_height = h, s_data = replicate (nat (4 * w * h)) 0\<rparr>"

text \<open>The state that \<open>init\<close> leaves on a blank 2x2 canvas for the colour [10, 20, 30].\<close>

definition fresh_2x2 :: fb_state where
  "fresh_2x2 =
     \<lparr>width = 2, height = 2, bufSize = 16, zBufSize = 4,
      framebuffer = [10, 20, 30, 255, 10, 20, 30, 255, 10, 20, 30, 255, 0, 0, 0, 0],
      zBuf = [Num (- 10000), Num (- 10000), Num (- 10000), Num 0],
      resetBuffer32 = [4280161290, 4280161290, 4280161290, 4280161290],
      resetZBuffer = [Num (- 10000), Num (- 10000), Num (- 10000), Num (- 10000)],
      bgColor = [10, 20, 30, 255],
      dirtyRect = \<lparr>dr_x = 1, dr_y = 1, dr_xMax = 0, dr_yMax = 0\<rparr>\<rparr>"

definition shaded_1234 :: color where
  "shaded_1234 = \<lparr>rgbaShaded = Some [1, 2, 3, 4]\<rparr>"

text \<open>
  The scenario: \<open>init\<close> on a blank 4x4 canvas with the colour [10, 20, 30], then
  \<open>set(1, 1, 5, color)\<close> with the shaded colour [1, 2, 3, 4] and default flags.
\<close>

definition init_4x4 :: "js_error + fb_state" where
  "init_4x4 = init bgColor_initial (blank_canvas 4 4) (Some [10, 20, 30])"

definition drawn_4x4 :: "js_error + fb_state" where
  "drawn_4x4 =
     (case init_4x4 of Inl e \<Rightarrow> Inl e | Inr s \<Rightarrow> fb_set s 1 1 (Num 5) shaded_1234 None None)"

text \<open>
  A blank 2x1 canvas after \<open>init\<close> and \<open>set(1, 0, 5, color)\<close>: one cell holds the
  sentinel, the other the depth 5.
\<close>

definition drawn_2x1 :: "js_error + fb_state" where
  "drawn_2x1 =
     (case init bgColor_initial (blank_canvas 2 1) None of
        Inl e \<Rightarrow> Inl e
      | Inr s \<Rightarrow> fb_set s 1 0 (Num 5) shaded_1234 None None)"

section \<open>Properties\<close>

subsection \<open>The rounding of numbers\<close>

text \<open>
  \<open>floor_log2\<close> finds the binade of a positive number, \<open>round_half_even\<close> is within
  one half of its argument, and \<open>round_binary\<close>, where it is finite, is a nearest
  multiple of the spacing \<open>2^k\<close> of the format at the magnitude of its argument.
\<close>

lemma round_half_even_near: "\<bar>of_int (round_half_even q) - q\<bar> \<le> 1 / 2"
proof -
  define f where "f = \<lfloor>q\<rfloor>"
  define d where "d = q - of_int f"
  have d: "0 \<le> d" "d < 1" unfolding d_def f_def by linarith+
  have q: "q = of_int f + d" by (simp add: d_def)
  have r: "round_half_even q =
      (if d < 1 / 2 then f else if 1 / 2 < d then f + 1 else if even f then f else f + 1)"
    unfolding round_half_even_def Let_def f_def d_def ..
  have "round_half_even q = f \<and> d \<le> 1 / 2 \<or> round_half_even q = f + 1 \<and> 1 / 2 \<le> d"
    unfolding r by auto
  then show ?thesis
  proof
    assume a: "round_half_even q = f \<and> d \<le> 1 / 2"
    then have "of_int (round_half_even q) - q = - d" by (simp add: d_def)
    then show ?thesis using a d by simp
  next
    assume a: "round_half_even q = f + 1 \<and> 1 / 2 \<le> d"
    then have "of_int (round_half_even q) - q = 1 - d" by (simp add: d_def)
    then show ?thesis using a d by simp
  qed
qed

lemma pow2_powi: "pow2 k = 2 powi k"
proof (cases "0 \<le> k")
  case True
  then show ?thesis by (simp add: pow2_def power_int_def)
next
  case False
  then show ?thesis by (simp add: pow2_def power_int_def power_one_over inverse_eq_divide)
qed

lemma pow2_add: "pow2 (i + j) = pow2 i * pow2 j"
  by (simp add: pow2_powi power_int_add)

lemma pow2_pos: "0 < pow2 k"
  by (simp add: pow2_def)

lemma bit_length_bounds:
  "0 < n \<Longrightarrow> 0 < bit_length n \<and> 2 ^ nat (bit_length n - 1) \<le> n \<and> n < 2 ^ nat (bit_length n)"
proof (induction n rule: bit_length.induct)
  case (1 n)
  show ?case
  proof (cases "n div 2 = 0")
    case True
    with 1(2) have "n = 1" by linarith
    then show ?thesis by (simp add: bit_length.simps [of 1] bit_length.simps [of 0])
  next
    case False
    with 1(2) have p: "0 < n div 2" by linarith
    from 1(1) 1(2) p have ih: "0 < bit_length (n div 2)"
      "2 ^ nat (bit_length (n div 2) - 1) \<le> n div 2" "n div 2 < 2 ^ nat (bit_length (n div 2))"
      by simp_all
    have b: "bit_length n = 1 + bit_length (n div 2)"
      using 1(2) by (simp add: bit_length.simps [of n])
    have e1: "nat (bit_length n - 1) = Suc (nat (bit_length (n div 2) - 1))"
      using b ih(1) by simp
    have e2: "nat (bit_length n) = Suc (nat (bit_length (n div 2)))"
      using b ih(1) by simp
    have "2 * (n div 2) \<le> n" "n < 2 * (n div 2) + 2" by linarith+
    with ih show ?thesis unfolding e1 e2 using b by simp
  qed
qed


lemma pow2_diff: "pow2 (i - j) = pow2 i / pow2 j"
  by (simp add: pow2_powi power_int_diff)

lemma pow2_of_int: "0 \<le> k \<Longrightarrow> pow2 k = of_int (2 ^ nat k)"
  by (simp add: pow2_def)

lemma floor_log2_bounds:
  assumes "0 < q"
  shows "pow2 (floor_log2 q) \<le> q \<and> q < pow2 (floor_log2 q + 1)"
proof -
  obtain a b where ab: "quotient_of q = (a, b)" by (cases "quotient_of q")
  have b: "0 < b" using ab by (rule quotient_of_denom_pos)
  have q: "q = of_int a / of_int b" using ab by (rule quotient_of_div)
  have a: "0 < a" using assms b unfolding q by (simp add: zero_less_divide_iff)
  let ?la = "bit_length a" and ?lb = "bit_length b"
  note ba = bit_length_bounds [OF a] and bb = bit_length_bounds [OF b]
  have A: "pow2 (?la - 1) \<le> of_int a" "of_int a < pow2 ?la"
    using ba by (simp_all add: pow2_of_int del: of_int_power)
  have B: "pow2 (?lb - 1) \<le> of_int b" "of_int b < pow2 ?lb"
    using bb by (simp_all add: pow2_of_int del: of_int_power)
  have lo: "pow2 (?la - 1) / pow2 ?lb \<le> q" unfolding q
    using A(1) B(2) a b by (intro frac_le) (simp_all add: pow2_pos less_imp_le)
  have hi: "q < pow2 ?la / pow2 (?lb - 1)" unfolding q
    using A(2) B(1) a b by (intro frac_less) (simp_all add: pow2_pos less_imp_le)
  define e where "e = ?la - ?lb"
  have lo': "pow2 (e - 1) \<le> q"
    using lo pow2_diff [of "?la - 1" ?lb] by (simp add: e_def algebra_simps)
  have hi': "q < pow2 (e + 1)"
    using hi pow2_diff [of ?la "?lb - 1"] by (simp add: e_def algebra_simps)
  have f: "floor_log2 q = (if pow2 e \<le> q then e else e - 1)"
    by (simp add: floor_log2_def Let_def ab e_def)
  show ?thesis using lo' hi' by (simp add: f)
qed


lemma round_binary_nearest:
  assumes "round_binary p emin emax q = Num r"
  defines "k \<equiv> max (floor_log2 \<bar>q\<bar>) emin - (p - 1)"
  shows "r = of_int (round_half_even (q / pow2 k)) * pow2 k \<and> \<bar>r - q\<bar> \<le> pow2 k / 2"
proof -
  let ?m = "round_half_even (q / pow2 k)"
  have n: "\<bar>of_int ?m * pow2 k - q\<bar> \<le> pow2 k / 2"
  proof -
    have "of_int ?m * pow2 k - q = (of_int ?m - q / pow2 k) * pow2 k"
      using pow2_pos [of k] by (simp add: algebra_simps)
    then have "\<bar>of_int ?m * pow2 k - q\<bar> = \<bar>of_int ?m - q / pow2 k\<bar> * pow2 k"
      using pow2_pos [of k] by (simp add: abs_mult)
    also have "\<dots> \<le> 1 / 2 * pow2 k"
      using round_half_even_near [of "q / pow2 k"] pow2_pos [of k]
      by (intro mult_right_mono) simp_all
    finally show ?thesis by simp
  qed
  show ?thesis
  proof (cases "q = 0")
    case True
    with assms(1) have "r = 0" by (simp add: round_binary_def)
    with True show ?thesis using pow2_pos [of k] by (simp add: round_half_even_def)
  next
    case False
    with assms(1) have "r = of_int ?m * pow2 k"
      by (auto simp add: round_binary_def Let_def k_def split: if_splits)
    with n show ?thesis by simp
  qed
qed

subsection \<open>Auxiliary facts\<close>

lemma linear_index_bounds:
  fixes w h px py :: int
  assumes "0 \<le> px" "px < w" "0 \<le> py" "py < h"
  shows "0 \<le> py * w + px" and "py * w + px < w * h"
proof -
  have w: "0 < w" using assms by linarith
  show "0 \<le> py * w + px" using assms w by simp
  have "py * w \<le> (h - 1) * w"
    using assms w by (intro mult_right_mono) auto
  then have "py * w + px < (h - 1) * w + w" using assms by linarith
  then show "py * w + px < w * h" by (simp add: algebra_simps)
qed

lemma length_bytes_of: "length (bytes_of ws) = 4 * length ws"
  by (induction ws) (simp_all add: bytes_of_def word_bytes_def)

lemma length_typed_put: "length (typed_put xs i v) = length xs"
  by (simp add: typed_put_def)

lemma view_set_Inr:
  assumes "view_set bpe buf off len src = Inr out"
  shows "0 \<le> off" "0 \<le> len" "off + len * bpe \<le> bpe * int (length buf)"
      "len * bpe \<le> bpe * int (length src)"
      "out = take (nat (off div bpe)) buf @ take (nat len) src
                @ drop (nat (off div bpe) + nat len) buf"
proof -
  have n: "\<not> (off < 0 \<or> len < 0 \<or> 0 < off mod bpe
         \<or> bpe * int (length buf) < off + len * bpe
         \<or> bpe * int (length src) < len * bpe)"
    using assms unfolding view_set_def by (cases "off < 0 \<or> len < 0 \<or> 0 < off mod bpe
         \<or> bpe * int (length buf) < off + len * bpe
         \<or> bpe * int (length src) < len * bpe") simp_all
  from n show "0 \<le> off" "0 \<le> len" "off + len * bpe \<le> bpe * int (length buf)"
      "len * bpe \<le> bpe * int (length src)" by linarith+
  from n assms show "out = take (nat (off div bpe)) buf @ take (nat len) src
                @ drop (nat (off div bpe) + nat len) buf"
    unfolding view_set_def by simp
qed


lemma length_view_set:
  assumes "view_set bpe buf off len src = Inr out" and "0 < bpe"
  shows "length out = length buf"
proof -
  note ok = view_set_Inr [OF assms(1)]
  have "bpe * (off div bpe) + off mod bpe = off" by (rule mult_div_mod_eq)
  moreover have "0 \<le> off mod bpe" using assms(2) by (rule pos_mod_sign)
  ultimately have d: "bpe * (off div bpe) \<le> off" by linarith
  have "bpe * (off div bpe + len) \<le> bpe * int (length buf)"
    using ok(3) d by (simp add: algebra_simps)
  then have a: "off div bpe + len \<le> int (length buf)"
    using assms(2) by (simp only: mult_le_cancel_left_pos)
  have "bpe * len \<le> bpe * int (length src)" using ok(4) by (simp add: mult.commute)
  then have b: "len \<le> int (length src)"
    using assms(2) by (simp only: mult_le_cancel_left_pos)
  have c: "0 \<le> off div bpe" using ok(1) assms(2) by (simp add: pos_imp_zdiv_nonneg_iff)
  have q: "nat (off div bpe) + nat len \<le> length buf" using a c ok(2) by linarith
  have n: "nat len \<le> length src" using b by linarith
  have "length (take (nat (off div bpe)) buf) = nat (off div bpe)" using q by simp
  moreover have "length (take (nat len) src) = nat len" using n by simp
  moreover have "length (drop (nat (off div bpe) + nat len) buf)
      = length buf - (nat (off div bpe) + nat len)" by simp
  ultimately show ?thesis using q unfolding ok(5) length_append by linarith
qed

lemma adjust_keeps_rect_inv:
  assumes "rect_inv s" "0 \<le> px" "px < width s" "0 \<le> py" "py < height s"
  shows "rect_inv (adjustDirtyRectangle s px py)"
  using assms by (simp add: rect_inv_def adjustDirtyRectangle_def Let_def)

lemma adjust_keeps_canvas_inv: "canvas_inv (adjustDirtyRectangle s px py) = canvas_inv s"
  by (simp add: canvas_inv_def adjustDirtyRectangle_def Let_def)

lemma zBufferTest_keeps_inv:
  "canvas_inv (snd (zBufferTest s px py z)) = canvas_inv s"
  "rect_inv (snd (zBufferTest s px py z)) = rect_inv s"
  by (simp_all add: zBufferTest_def Let_def canvas_inv_def rect_inv_def length_typed_put
      split: option.split)

lemma fb_set_keeps_inv:
  assumes "canvas_inv s" "rect_inv s" "fb_set s px py z c doZ adj = Inr s'"
  shows "canvas_inv s' \<and> rect_inv s'"
proof (cases "px < 0 \<or> py < 0 \<or> width s \<le> px \<or> height s \<le> py")
  case True
  with assms show ?thesis by (simp add: fb_set_def)
next
  case False
  then have r: "0 \<le> px" "px < width s" "0 \<le> py" "py < height s" by auto
  define t where "t = (if doZ = None \<or> doZ = Some True then zBufferTest s px py z else (True, s))"
  have t: "canvas_inv (snd t)" "rect_inv (snd t)" "width (snd t) = width s" "height (snd t) = height s"
    using assms(1,2) zBufferTest_keeps_inv [of s px py z]
    by (auto simp add: t_def zBufferTest_def Let_def split: option.split)
  define u where "u = (if adj = None \<or> adj = Some True then adjustDirtyRectangle (snd t) px py else snd t)"
  have u: "canvas_inv u" "rect_inv u"
    using t r adjust_keeps_rect_inv [of "snd t" px py] adjust_keeps_canvas_inv [of "snd t" px py]
    by (auto simp add: u_def)
  show ?thesis
  proof (cases "fst t")
    case False
    with assms(3) \<open>\<not> (px < 0 \<or> py < 0 \<or> width s \<le> px \<or> height s \<le> py)\<close> t
    show ?thesis by (simp add: fb_set_def t_def split_def)
  next
    case True
    with assms(3) \<open>\<not> (px < 0 \<or> py < 0 \<or> width s \<le> px \<or> height s \<le> py)\<close>
    obtain rgba fb where "s' = u\<lparr>framebuffer := fb\<rparr>" "length fb = length (framebuffer u)"
      by (auto simp add: fb_set_def t_def [symmetric] u_def [symmetric] split_def Let_def length_typed_put
          split: option.splits)
    with u show ?thesis by (simp add: canvas_inv_def rect_inv_def)
  qed
qed

lemma resetDirtyRect_inv:
  assumes "canvas_inv s"
  shows "canvas_inv (resetDirtyRect s) \<and> rect_inv (resetDirtyRect s)"
  using assms by (simp add: canvas_inv_def rect_inv_def resetDirtyRect_def)


lemma reset_keeps_inv:
  assumes "canvas_inv s" "reset s = Inr (r, s')"
  shows "canvas_inv s' \<and> rect_inv s'"
proof (cases "dr_yMax (dirtyRect s) * width s + dr_xMax (dirtyRect s)
              > dr_y (dirtyRect s) * width s + dr_x (dirtyRect s)")
  case False
  with assms(2) have "s' = resetDirtyRect s" by (simp add: reset_def Let_def)
  with assms(1) resetDirtyRect_inv show ?thesis by simp
next
  case True
  let ?a = "dr_y (dirtyRect s) * width s + dr_x (dirtyRect s)"
  let ?b = "dr_yMax (dirtyRect s) * width s + dr_xMax (dirtyRect s)"
  from assms(2) True obtain zb fb where
    zb: "view_set 4 (zBuf s) (?a * 4) (?b - ?a) (resetZBuffer s) = Inr zb" and
    fb: "view_set 1 (framebuffer s) (?a * 4) (?b * 4 - ?a * 4) (bytes_of (resetBuffer32 s)) = Inr fb" and
    s': "s' = resetDirtyRect (s\<lparr>zBuf := zb, framebuffer := fb\<rparr>)"
    by (simp add: reset_def Let_def split: sum.splits)
  have "length zb = length (zBuf s)" using zb by (rule length_view_set) simp
  moreover have "length fb = length (framebuffer s)" using fb by (rule length_view_set) simp
  ultimately have "canvas_inv (s\<lparr>zBuf := zb, framebuffer := fb\<rparr>)"
    using assms(1) by (simp add: canvas_inv_def)
  with s' resetDirtyRect_inv show ?thesis by simp
qed
lemma init_prepare_inv:
  assumes "1 \<le> s_width ctx" "1 \<le> s_height ctx"
    and "int (length (s_data ctx)) = 4 * (s_width ctx * s_height ctx)"
  shows "\<exists>s. init_prepare bg0 ctx bgc = Inr s \<and> canvas_inv s \<and> rect_inv s"
proof -
  have "0 < s_width ctx * s_height ctx" using assms(1,2) by simp
  then show ?thesis using assms
    by (simp add: init_prepare_def Let_def setMaxDirtyRect_def initResetBuffer_def
        canvas_inv_def rect_inv_def)
qed

text \<open>
  What \<open>reset\<close> does on a state that satisfies the invariants: it never throws, and it
  copies the templates over the cells from the first corner up to, but not including,
  the last corner of the dirty rectangle.
\<close>

lemma reset_on_inv:
  assumes "canvas_inv s" and "rect_inv s"
  shows "reset s =
     (let d = dirtyRect s;
          a = dr_y d * width s + dr_x d;
          b = dr_yMax d * width s + dr_xMax d
      in if b > a
         then Inr (Some \<lparr>cr_x = dr_x d, cr_y = dr_y d,
                          cr_w = dr_xMax d - dr_x d + 1, cr_h = dr_yMax d - dr_y d + 1\<rparr>,
                   resetDirtyRect (s\<lparr>
                     zBuf := take (nat a) (zBuf s) @ take (nat (b - a)) (resetZBuffer s)
                             @ drop (nat a + nat (b - a)) (zBuf s),
                     framebuffer := take (nat (a * 4)) (framebuffer s)
                             @ take (nat (b * 4 - a * 4)) (bytes_of (resetBuffer32 s))
                             @ drop (nat (a * 4) + nat (b * 4 - a * 4)) (framebuffer s)\<rparr>))
         else Inr (None, resetDirtyRect s))"
proof -
  let ?d = "dirtyRect s"
  let ?a = "dr_y ?d * width s + dr_x ?d"
  let ?b = "dr_yMax ?d * width s + dr_xMax ?d"
  have a: "0 \<le> ?a" and b: "?b < width s * height s"
    using assms(2) linear_index_bounds [of "dr_x ?d" "width s" "dr_y ?d" "height s"]
      linear_index_bounds [of "dr_xMax ?d" "width s" "dr_yMax ?d" "height s"]
    by (simp_all add: rect_inv_def)
  show ?thesis
  proof (cases "?b > ?a")
    case False
    then show ?thesis by (simp add: reset_def Let_def)
  next
    case True
    have z: "view_set 4 (zBuf s) (?a * 4) (?b - ?a) (resetZBuffer s)
        = Inr (take (nat ?a) (zBuf s) @ take (nat (?b - ?a)) (resetZBuffer s)
               @ drop (nat ?a + nat (?b - ?a)) (zBuf s))"
      using a b True assms(1) by (simp add: view_set_def canvas_inv_def)
    have f: "view_set 1 (framebuffer s) (?a * 4) (?b * 4 - ?a * 4) (bytes_of (resetBuffer32 s))
        = Inr (take (nat (?a * 4)) (framebuffer s)
               @ take (nat (?b * 4 - ?a * 4)) (bytes_of (resetBuffer32 s))
               @ drop (nat (?a * 4) + nat (?b * 4 - ?a * 4)) (framebuffer s))"
      using a b True assms(1) by (simp add: view_set_def canvas_inv_def length_bytes_of)
    from True show ?thesis
      unfolding reset_def Let_def by (simp only: z f if_True sum.case)
  qed
qed

text \<open>\<open>init\<close> succeeds on a canvas of positive size and establishes the invariants.\<close>

lemma init_establishes_inv:
  assumes "1 \<le> s_width ctx" "1 \<le> s_height ctx"
    and "int (length (s_data ctx)) = 4 * (s_width ctx * s_height ctx)"
  shows "\<exists>s. init bg0 ctx bgc = Inr s \<and> canvas_inv s \<and> rect_inv s"
proof -
  from init_prepare_inv [OF assms] obtain s0 where
    s0: "init_prepare bg0 ctx bgc = Inr s0" "canvas_inv s0" "rect_inv s0" by blast
  from reset_on_inv [OF s0(2,3)] obtain r s where r: "reset s0 = Inr (r, s)"
    by (auto simp add: Let_def split: if_splits)
  from reset_keeps_inv [OF s0(2) r] s0(1) r show ?thesis
    by (simp add: init_def)
qed

lemma scale_range_nonzero: "scale_range s \<noteq> Num 0"
  by (simp add: scale_range_def Let_def)

lemma adjust_step_monotonic:
  "dr_x (dirtyRect (adjustDirtyRectangle s px py)) \<le> dr_x (dirtyRect s)
   \<and> dr_y (dirtyRect (adjustDirtyRectangle s px py)) \<le> dr_y (dirtyRect s)
   \<and> dr_xMax (dirtyRect s) \<le> dr_xMax (dirtyRect (adjustDirtyRectangle s px py))
   \<and> dr_yMax (dirtyRect s) \<le> dr_yMax (dirtyRect (adjustDirtyRectangle s px py))"
  by (simp add: adjustDirtyRectangle_def Let_def)

text \<open>The rounding at work: a Float32 has 24 significant bits, a double 53.\<close>

lemma rounding_examples:
  "fround (Num 16777217) = Num 16777216"
  "js_add (Num 16777217) (Num 10) = Num 16777227"
  "js_add (Num (- 10)) (Num 10) = Num 0"
  "js_add (Num (1 / 1152921504606846976)) (Num 10) = Num 10"
  "fround (Num (1 / 10)) = Num (13421773 / 134217728)"
  "fround maxDistance = maxDistance"
  by code_simp+

text \<open>The fixture \<open>fresh_2x2\<close> is the state after \<open>init\<close>, and it satisfies the invariants.\<close>

lemma init_2x2: "init bgColor_initial (blank_canvas 2 2) (Some [10, 20, 30]) = Inr fresh_2x2"
  by code_simp

lemma fresh_2x2_inv: "canvas_inv fresh_2x2 \<and> rect_inv fresh_2x2"
  by code_simp

subsection \<open>Initialisation and round trip\<close>

text \<open>
  Claim C1 says that after \<open>init\<close> every pixel holds the background colour with alpha 255
  and every depth cell holds \<open>maxDistance\<close>. The copy in \<open>reset\<close> stops one cell short of
  the last corner of the dirty rectangle, so the last pixel of the canvas is never
  cleared: on a blank 2x2 canvas with the colour [10, 20, 30] the internal \<open>reset\<close> does
  return the rectangle (0, 0, 2, 2), but the depth cell of pixel (1, 1) still holds the 0
  of the fresh \<open>Float32Array\<close> and its four channels still hold the canvas's own bytes.
\<close>

theorem init_leaves_last_pixel:
  "map_sum id (\<lambda>s. map_sum id fst (reset s))
     (init_prepare bgColor_initial (blank_canvas 2 2) (Some [10, 20, 30]))
     = Inr (Inr (Some \<lparr>cr_x = 0, cr_y = 0, cr_w = 2, cr_h = 2\<rparr>))
   \<and> map_sum id (\<lambda>s. (depth_at s 1 1, pixel_at s 1 1, depth_at s 0 0, pixel_at s 0 0))
       (init bgColor_initial (blank_canvas 2 2) (Some [10, 20, 30]))
     = Inr (Some (Num 0), [Some 0, Some 0, Some 0, Some 0],
            Some maxDistance, [Some 10, Some 20, Some 30, Some 255])"
  by code_simp

text \<open>
  Claim C3 says that a pixel written by \<open>set\<close> is restored by the next \<open>reset\<close>, and
  gives the scenario of a 4x4 canvas. In the scenario the code leaves the dirty rectangle
  at x = 1, y = 1, xMax = 0, yMax = 0 after \<open>set(1, 1, 5, color)\<close>; \<open>reset\<close> then finds
  the last corner before the first one, clears nothing and returns \<open>undefined\<close>: pixel
  (1, 1) still reads (1, 2, 3, 4) and its depth still reads 5.
\<close>

theorem set_then_reset_scenario:
  "map_sum id (\<lambda>s. (dirtyRect s, map_sum id (\<lambda>rs. (fst rs, pixel_at (snd rs) 1 1, depth_at (snd rs) 1 1)) (reset s)))
     drawn_4x4
   = Inr (\<lparr>dr_x = 1, dr_y = 1, dr_xMax = 0, dr_yMax = 0\<rparr>,
          Inr (None, [Some 1, Some 2, Some 3, Some 4], Some (Num 5)))"
  by code_simp

subsection \<open>Dirty rectangle\<close>

text \<open>
  Claim C2 says that one call of \<open>adjustDirtyRectangle\<close> leaves the rectangle covering
  the point, all four comparisons being made. The code compares against the maximum only
  when the comparison against the minimum fails: from the empty rectangle of a 4x4
  canvas (x = 3, y = 3, xMax = 0, yMax = 0) the point (1, 1) lowers both minima and leaves
  both maxima at 0, so the rectangle does not cover the point.
\<close>

theorem adjust_misses_point:
  "map_sum id (\<lambda>s. (dirtyRect s, dirtyRect (adjustDirtyRectangle s 1 1),
                     1 \<le> dr_xMax (dirtyRect (adjustDirtyRectangle s 1 1)),
                     1 \<le> dr_yMax (dirtyRect (adjustDirtyRectangle s 1 1)))) init_4x4
   = Inr (\<lparr>dr_x = 3, dr_y = 3, dr_xMax = 0, dr_yMax = 0\<rparr>,
          \<lparr>dr_x = 1, dr_y = 1, dr_xMax = 0, dr_yMax = 0\<rparr>, False, False)"
  by code_simp

text \<open>
  Claim C8: over any sequence of \<open>adjustDirtyRectangle\<close> calls with no \<open>reset\<close> in
  between, the bounds only move outward: \<open>x\<close> and \<open>y\<close> never increase, \<open>xMax\<close> and
  \<open>yMax\<close> never decrease.
\<close>

theorem adjust_all_monotonic:
  "dr_x (dirtyRect (adjust_all s ps)) \<le> dr_x (dirtyRect s)
   \<and> dr_y (dirtyRect (adjust_all s ps)) \<le> dr_y (dirtyRect s)
   \<and> dr_xMax (dirtyRect s) \<le> dr_xMax (dirtyRect (adjust_all s ps))
   \<and> dr_yMax (dirtyRect s) \<le> dr_yMax (dirtyRect (adjust_all s ps))"
proof (induction ps arbitrary: s)
  case Nil
  show ?case by simp
next
  case (Cons p ps)
  from Cons.IH [of "adjustDirtyRectangle s (fst p) (snd p)"]
    adjust_step_monotonic [of s "fst p" "snd p"]
  show ?case by simp
qed

subsection \<open>Depth test\<close>

text \<open>
  Claim C4, as amended: for a pixel inside the canvas and every number \<open>z\<close>,
  \<open>zBufferTest\<close> returns true and stores \<open>z\<close>, rounded to a Float32, at the pixel's
  cell exactly when the stored depth is less than the double \<open>z + 10\<close>; otherwise it
  returns false and changes nothing. The sentinel is an ordinary stored depth here: a
  cell that holds it passes only when that comparison holds.
\<close>

theorem zBufferTest_in_range:
  assumes "int (length (zBuf s)) = width s * height s"
    and "0 \<le> px" "px < width s" "0 \<le> py" "py < height s"
  shows "zBufferTest s px py z =
     (if js_less (zBuf s ! nat (py * width s + px)) (js_add z (Num 10))
      then (True, s\<lparr>zBuf := (zBuf s)[nat (py * width s + px) := fround z]\<rparr>)
      else (False, s))"
proof -
  have "0 \<le> py * width s + px" "py * width s + px < int (length (zBuf s))"
    using linear_index_bounds [of px "width s" py "height s"] assms by simp_all
  then show ?thesis
    by (simp add: zBufferTest_def typed_get_def typed_put_def Let_def)
qed

theorem zBufferTest_in_range_witness:
  "zBufferTest fresh_2x2 0 0 (Num 16777217)
     = (True, fresh_2x2\<lparr>zBuf := [Num 16777216, Num (- 10000), Num (- 10000), Num 0]\<rparr>)
   \<and> zBufferTest fresh_2x2 1 1 (Num (- 10)) = (False, fresh_2x2)
   \<and> zBufferTest (fresh_2x2\<lparr>zBuf := [Num 10, Num 10, Num 10, Num 10]\<rparr>) 0 1
       (Num (1 / 1152921504606846976))
     = (False, fresh_2x2\<lparr>zBuf := [Num 10, Num 10, Num 10, Num 10]\<rparr>)"
  using zBufferTest_in_range [where s = fresh_2x2 and px = 0 and py = 0 and z = "Num 16777217"]
    zBufferTest_in_range [where s = fresh_2x2 and px = 1 and py = 1 and z = "Num (- 10)"]
    zBufferTest_in_range [where s = "fresh_2x2\<lparr>zBuf := [Num 10, Num 10, Num 10, Num 10]\<rparr>"
      and px = 0 and py = 1 and z = "Num (1 / 1152921504606846976)"]
  by (simp add: fresh_2x2_def rounding_examples del: js_add.simps fround.simps)

text \<open>
  Claim C4 as stated fails: the cell of pixel (0, 0) holds the sentinel after \<open>init\<close>,
  and the test with \<open>z = - 10010\<close> returns false and stores nothing.
\<close>

theorem zBufferTest_sentinel_counterexample:
  "depth_at fresh_2x2 0 0 = Some maxDistance
   \<and> zBufferTest fresh_2x2 0 0 (Num (- 10010)) = (False, fresh_2x2)"
  by code_simp



subsection \<open>Pixel write\<close>

text \<open>
  Claim C7: for coordinates outside the canvas, \<open>set\<close> returns at once, with no error
  and with the pixel buffer, the depth buffer and the dirty rectangle (the whole state)
  unchanged, whatever the depth, the colour and the flags.
\<close>

theorem fb_set_out_of_range:
  assumes "px < 0 \<or> py < 0 \<or> width s \<le> px \<or> height s \<le> py"
  shows "fb_set s px py z c doZBufferTest adjustDirtyRect = Inr s"
  using assms by (simp add: fb_set_def)

theorem fb_set_out_of_range_witness:
  "fb_set fresh_2x2 2 0 (Num 5) shaded_1234 None None = Inr fresh_2x2
   \<and> fb_set fresh_2x2 0 (- 1) (Num 5) \<lparr>rgbaShaded = None\<rparr> (Some False) (Some True)
     = Inr fresh_2x2"
  using fb_set_out_of_range [where s = fresh_2x2 and px = 2 and py = 0]
    fb_set_out_of_range [where s = fresh_2x2 and px = 0 and py = "- 1"]
  by (simp add: fresh_2x2_def)

subsection \<open>Reset\<close>

text \<open>
  Claim C5: on a state that satisfies the invariants of the data model, \<open>reset\<close> returns
  the rectangle \<open>x, y, w = xMax - x + 1, h = yMax - y + 1\<close> exactly when
  \<open>yMax * width + xMax\<close> exceeds \<open>y * width + x\<close>, and the empty result otherwise; in
  both cases the dirty rectangle is the empty one afterwards.
\<close>

theorem reset_result:
  assumes "canvas_inv s" and "rect_inv s"
  shows "\<exists>s'. reset s =
           Inr (if dr_yMax (dirtyRect s) * width s + dr_xMax (dirtyRect s)
                   > dr_y (dirtyRect s) * width s + dr_x (dirtyRect s)
                then Some \<lparr>cr_x = dr_x (dirtyRect s), cr_y = dr_y (dirtyRect s),
                           cr_w = dr_xMax (dirtyRect s) - dr_x (dirtyRect s) + 1,
                           cr_h = dr_yMax (dirtyRect s) - dr_y (dirtyRect s) + 1\<rparr>
                else None, s')
         \<and> dirtyRect s' = \<lparr>dr_x = width s - 1, dr_y = height s - 1, dr_xMax = 0, dr_yMax = 0\<rparr>"
  using reset_on_inv [OF assms] by (simp add: Let_def resetDirtyRect_def)

theorem reset_result_witness:
  "(\<exists>s'. reset (setMaxDirtyRect fresh_2x2)
            = Inr (Some \<lparr>cr_x = 0, cr_y = 0, cr_w = 2, cr_h = 2\<rparr>, s')
          \<and> dirtyRect s' = \<lparr>dr_x = 1, dr_y = 1, dr_xMax = 0, dr_yMax = 0\<rparr>)
   \<and> (\<exists>s'. reset fresh_2x2 = Inr (None, s')
          \<and> dirtyRect s' = \<lparr>dr_x = 1, dr_y = 1, dr_xMax = 0, dr_yMax = 0\<rparr>)"
  using reset_result [of "setMaxDirtyRect fresh_2x2"] reset_result [of fresh_2x2]
  by (simp add: fresh_2x2_def setMaxDirtyRect_def canvas_inv_def rect_inv_def)

subsection \<open>Depth visualisation\<close>

text \<open>
  Claim C6 says that \<open>scaleZBuffer\<close> maps every cell other than the sentinel to
  \<open>(value - min) / range\<close> for the minimum and maximum of those cells, into [0, 1]. The
  scan updates the minimum only for a cell that does not raise the maximum: with the
  depth buffer [sentinel, 5] it ends with max = 5 and min = 10000, the range is 9995,
  and the cell becomes (5 - 10000) / 9995 = - 1, where the claim gives 0.
\<close>

theorem scaleZBuffer_single_cell:
  "map_sum id (\<lambda>s. (zBuf s, scale_min_max s, scale_range s, zBuf (scaleZBuffer s))) drawn_2x1
   = Inr ([maxDistance, Num 5], (Num 10000, Num 5), Num 9995, [maxDistance, Num (- 1)])"
  by code_simp

text \<open>
  Claim C9: when every cell of the depth buffer holds the sentinel, \<open>scaleZBuffer\<close>
  leaves the state as it was; the divisor it computes is not zero.
\<close>

theorem scaleZBuffer_all_sentinel:
  assumes "\<forall>v \<in> set (zBuf s). v = maxDistance"
  shows "scaleZBuffer s = s \<and> scale_range s \<noteq> Num 0"
proof -
  let ?n = "nat (zBufSize s)"
  let ?f = "\<lambda>v. if v = maxDistance then v
                else fround (js_div (js_sub v (fst (scale_min_max s))) (scale_range s))"
  have "map ?f (take ?n (zBuf s)) = take ?n (zBuf s)"
    using assms by (intro map_idI) (auto dest: in_set_takeD)
  then have "map ?f (take ?n (zBuf s)) @ drop ?n (zBuf s) = zBuf s"
    by simp
  then have "scaleZBuffer s = s"
    by (simp add: scaleZBuffer_def Let_def)
  then show ?thesis using scale_range_nonzero by simp
qed

theorem scaleZBuffer_all_sentinel_witness:
  "scaleZBuffer (fresh_2x2\<lparr>zBuf := replicate 4 maxDistance\<rparr>)
     = fresh_2x2\<lparr>zBuf := replicate 4 maxDistance\<rparr>
   \<and> scale_range (fresh_2x2\<lparr>zBuf := replicate 4 maxDistance\<rparr>) \<noteq> Num 0"
  using scaleZBuffer_all_sentinel [of "fresh_2x2\<lparr>zBuf := replicate 4 maxDistance\<rparr>"]
  by simp

end
